theory Spec2Isabelle
  imports Complex_Main
begin

section \<open>Data model\<close>

text \<open>
  The voice session of \<^verbatim>\<open>App.tsx\<close>: the React state and the refs of the component are the
  fields of one state record, every callback is a function from state to state, and the calls
  the callbacks make on the browser and on the transport (\<^verbatim>\<open>source.start\<close>,
  \<^verbatim>\<open>source.stop\<close>, \<^verbatim>\<open>session.close\<close>, \<^verbatim>\<open>track.stop\<close>,
  \<^verbatim>\<open>sendRealtimeInput\<close>) are logged in the state in call order.
  JavaScript numbers that hold times and samples are modelled as real numbers: the model
  follows the arithmetic of the code without the rounding of IEEE doubles.
\<close>

subsection \<open>types.ts\<close>

datatype ConnectionStatus = DISCONNECTED | CONNECTING | CONNECTED | ERROR

datatype Role = user | gemini

record TranscriptEntry =
  role :: Role
  entry_text :: string
  timestamp :: int

subsection \<open>The inbound message, as far as the handler reads it\<close>

text \<open>
  \<^verbatim>\<open>LiveServerMessage\<close> belongs to the transport library. The handler reads the
  optional fields below; an absent field (\<^verbatim>\<open>undefined\<close>) is \<open>None\<close>, an absent
  boolean flag is \<open>False\<close>.
\<close>

record Transcription =
  trans_text :: "string option"

record Blob =
  data :: "string option"

record Part =
  inlineData :: "Blob option"

record Content =
  parts :: "Part list option"

record LiveServerContent =
  outputTranscription :: "Transcription option"
  inputTranscription :: "Transcription option"
  turnComplete :: bool
  modelTurn :: "Content option"
  interrupted :: bool

record LiveServerMessage =
  serverContent :: "LiveServerContent option"

subsection \<open>The component's state and the logged calls\<close>

text \<open>One \<^verbatim>\<open>source.start(when)\<close> call: the source, the start time, the buffer's duration.\<close>

record scheduled =
  source :: nat
  start_at :: real
  duration :: real

text \<open>One \<^verbatim>\<open>sendRealtimeInput\<close> call: the 16-bit samples and the format tag.\<close>

record pcmBlob =
  samples :: "int list"
  mimeType :: string

record state =
  status :: ConnectionStatus
  history :: "TranscriptEntry list"
  isGeminiSpeaking :: bool
  isUserSpeaking :: bool
  nextStartTimeRef :: real
  activeSourcesRef :: "nat list"
  sessionRef :: "nat option"
  streamRef :: "nat list option"
  currentInputTransRef :: string
  currentOutputTransRef :: string
  startCalls :: "scheduled list"
  stopCalls :: "nat list"
  closeCalls :: "nat list"
  trackStopCalls :: "nat list"
  sendCalls :: "pcmBlob list"

text \<open>
  \<open>activeSourcesRef\<close> is the JavaScript \<^verbatim>\<open>Set\<close> of playing sources in insertion order;
  a source is named by the number of sources created before it. \<open>sessionRef\<close> holds the
  session handle, \<open>streamRef\<close> the tracks of the microphone stream.
\<close>

text \<open>The values of \<^verbatim>\<open>useState\<close> and \<^verbatim>\<open>useRef\<close> when the component mounts.\<close>

definition initial :: state where
  "initial = \<lparr>status = DISCONNECTED, history = [], isGeminiSpeaking = False,
     isUserSpeaking = False, nextStartTimeRef = 0, activeSourcesRef = [],
     sessionRef = None, streamRef = None, currentInputTransRef = [],
     currentOutputTransRef = [], startCalls = [], stopCalls = [], closeCalls = [],
     trackStopCalls = [], sendCalls = []\<rparr>"

text \<open>What the handler reads from outside: the output clock and the wall clock.\<close>

record clock =
  currentTime :: real
  dateNow :: int

datatype js_error = TypeError | DecodeError

text \<open>
  The handler is an async function: it either runs to its end or stops at a throw, and the
  mutations made before the throw stay.
\<close>

datatype outcome = Fulfilled state | Rejected js_error state

fun state_of :: "outcome \<Rightarrow> state" where
  "state_of (Fulfilled s) = s"
| "state_of (Rejected e s) = s"

fun rejected :: "outcome \<Rightarrow> bool" where
  "rejected (Fulfilled s) = False"
| "rejected (Rejected e s) = True"

section \<open>Teardown: stopConversation\<close>

definition stopConversation :: "state \<Rightarrow> state" where
  "stopConversation s =
     (let s1 = (case sessionRef s of
                  Some h \<Rightarrow> s\<lparr>closeCalls := closeCalls s @ [h], sessionRef := None\<rparr>
                | None \<Rightarrow> s);
          s2 = (case streamRef s1 of
                  Some tracks \<Rightarrow>
                    s1\<lparr>trackStopCalls := trackStopCalls s1 @ tracks, streamRef := None\<rparr>
                | None \<Rightarrow> s1);
          s3 = s2\<lparr>stopCalls := stopCalls s2 @ activeSourcesRef s2\<rparr>;
          s4 = s3\<lparr>activeSourcesRef := []\<rparr>
      in s4\<lparr>status := DISCONNECTED, isUserSpeaking := False, isGeminiSpeaking := False\<rparr>)"

section \<open>Transport callbacks\<close>

definition onopen :: "state \<Rightarrow> state" where
  "onopen s = s\<lparr>status := CONNECTED\<rparr>"

definition onerror :: "state \<Rightarrow> state" where
  "onerror s = stopConversation (s\<lparr>status := ERROR\<rparr>)"

definition onclose :: "state \<Rightarrow> state" where
  "onclose s = s\<lparr>status := DISCONNECTED\<rparr>"

subsection \<open>onmessage\<close>

text \<open>\<^verbatim>\<open>acc += t\<close> on a string: an undefined \<^verbatim>\<open>t\<close> appends the text "undefined".\<close>

definition js_string :: "string option \<Rightarrow> string" where
  "js_string t = (case t of Some x \<Rightarrow> x | None \<Rightarrow> ''undefined'')"

text \<open>The transcription deltas: the output case is tested first, the input case in its else.\<close>

definition append_transcription :: "state \<Rightarrow> LiveServerMessage \<Rightarrow> state" where
  "append_transcription s m =
     (case serverContent m of
        None \<Rightarrow> s
      | Some sc \<Rightarrow>
          (case outputTranscription sc of
             Some t \<Rightarrow>
               s\<lparr>currentOutputTransRef := currentOutputTransRef s @ js_string (trans_text t)\<rparr>
           | None \<Rightarrow>
               (case inputTranscription sc of
                  Some t \<Rightarrow>
                    s\<lparr>currentInputTransRef := currentInputTransRef s @ js_string (trans_text t)\<rparr>
                | None \<Rightarrow> s)))"

text \<open>The entries one turn-complete appends: the user's, then the model's, each if non-empty.\<close>

definition turn_entries :: "int \<Rightarrow> string \<Rightarrow> string \<Rightarrow> TranscriptEntry list" where
  "turn_entries now uText gText =
     (if uText \<noteq> [] then [\<lparr>role = user, entry_text = uText, timestamp = now\<rparr>] else []) @
     (if gText \<noteq> [] then [\<lparr>role = gemini, entry_text = gText, timestamp = now\<rparr>] else [])"

definition flush_turn :: "clock \<Rightarrow> state \<Rightarrow> LiveServerMessage \<Rightarrow> state" where
  "flush_turn clk s m =
     (case serverContent m of
        None \<Rightarrow> s
      | Some sc \<Rightarrow>
          if turnComplete sc then
            (let uText = currentInputTransRef s;
                 gText = currentOutputTransRef s;
                 s1 = (if uText \<noteq> [] \<or> gText \<noteq> []
                       then s\<lparr>history := history s @ turn_entries (dateNow clk) uText gText\<rparr>
                       else s)
             in s1\<lparr>currentInputTransRef := [], currentOutputTransRef := []\<rparr>)
          else s)"

text \<open>
  \<^verbatim>\<open>message.serverContent?.modelTurn?.parts[0]?.inlineData?.data\<close>: every step but the
  index into \<^verbatim>\<open>parts\<close> is optional, so a model turn without \<^verbatim>\<open>parts\<close> throws.
\<close>

definition base64Audio :: "LiveServerMessage \<Rightarrow> js_error + string option" where
  "base64Audio m =
     (case serverContent m of
        None \<Rightarrow> Inr None
      | Some sc \<Rightarrow>
          (case modelTurn sc of
             None \<Rightarrow> Inr None
           | Some c \<Rightarrow>
               (case parts c of
                  None \<Rightarrow> Inl TypeError
                | Some ps \<Rightarrow>
                    (case ps of
                       [] \<Rightarrow> Inr None
                     | p # _ \<Rightarrow>
                         (case inlineData p of
                            None \<Rightarrow> Inr None
                          | Some b \<Rightarrow> Inr (data b))))))"

text \<open>\<^verbatim>\<open>Set.add\<close>, \<^verbatim>\<open>Set.delete\<close> on the insertion-ordered set.\<close>

definition set_add :: "nat \<Rightarrow> nat list \<Rightarrow> nat list" where
  "set_add x xs = (if x \<in> set xs then xs else xs @ [x])"

definition set_delete :: "nat \<Rightarrow> nat list \<Rightarrow> nat list" where
  "set_delete x xs = removeAll x xs"

text \<open>
  The audio branch. \<^verbatim>\<open>decode\<close> and \<^verbatim>\<open>decodeAudioData\<close> live in a module that is
  not part of the sources at hand; they enter as the parameter \<open>dec\<close>, which gives the
  duration of the decoded buffer, or \<open>None\<close> where decoding throws.
\<close>

definition play_chunk :: "(string \<Rightarrow> real option) \<Rightarrow> clock \<Rightarrow> state \<Rightarrow> string \<Rightarrow> outcome" where
  "play_chunk dec clk s b64 =
     (let s1 = s\<lparr>isGeminiSpeaking := True\<rparr>;
          s2 = s1\<lparr>nextStartTimeRef := max (nextStartTimeRef s1) (currentTime clk)\<rparr>
      in case dec b64 of
           None \<Rightarrow> Rejected DecodeError s2
         | Some d \<Rightarrow>
             (let src = length (startCalls s2);
                  s3 = s2\<lparr>startCalls := startCalls s2 @
                          [\<lparr>source = src, start_at = nextStartTimeRef s2, duration = d\<rparr>]\<rparr>;
                  s4 = s3\<lparr>nextStartTimeRef := nextStartTimeRef s3 + d\<rparr>
              in Fulfilled (s4\<lparr>activeSourcesRef := set_add src (activeSourcesRef s4)\<rparr>)))"

text \<open>The listener of a source's \<^verbatim>\<open>ended\<close> event.\<close>

definition onended :: "nat \<Rightarrow> state \<Rightarrow> state" where
  "onended src s =
     (let s1 = s\<lparr>activeSourcesRef := set_delete src (activeSourcesRef s)\<rparr>
      in if length (activeSourcesRef s1) = 0 then s1\<lparr>isGeminiSpeaking := False\<rparr> else s1)"

definition stop_playback :: "state \<Rightarrow> LiveServerMessage \<Rightarrow> state" where
  "stop_playback s m =
     (case serverContent m of
        None \<Rightarrow> s
      | Some sc \<Rightarrow>
          if interrupted sc then
            (let s1 = s\<lparr>stopCalls := stopCalls s @ activeSourcesRef s\<rparr>;
                 s2 = s1\<lparr>activeSourcesRef := []\<rparr>;
                 s3 = s2\<lparr>nextStartTimeRef := 0\<rparr>
             in s3\<lparr>isGeminiSpeaking := False\<rparr>)
          else s)"

text \<open>The audio branch is entered when the data is a non-empty string.\<close>

definition play_audio :: "(string \<Rightarrow> real option) \<Rightarrow> clock \<Rightarrow> state \<Rightarrow> LiveServerMessage \<Rightarrow> outcome" where
  "play_audio dec clk s m =
     (case base64Audio m of
        Inl e \<Rightarrow> Rejected e s
      | Inr None \<Rightarrow> Fulfilled s
      | Inr (Some b64) \<Rightarrow> if b64 \<noteq> [] then play_chunk dec clk s b64 else Fulfilled s)"

definition onmessage :: "(string \<Rightarrow> real option) \<Rightarrow> clock \<Rightarrow> state \<Rightarrow> LiveServerMessage \<Rightarrow> outcome" where
  "onmessage dec clk s m =
     (let s1 = append_transcription s m;
          s2 = flush_turn clk s1 m
      in case play_audio dec clk s2 m of
           Rejected e s3 \<Rightarrow> Rejected e s3
         | Fulfilled s3 \<Rightarrow> Fulfilled (stop_playback s3 m))"

text \<open>
  Messages are handled one after the other, each with the clock readings of its arrival;
  a handler that throws leaves its mutations and the next message is handled all the same.
\<close>

fun deliver :: "(string \<Rightarrow> real option) \<Rightarrow> state \<Rightarrow> (clock \<times> LiveServerMessage) list \<Rightarrow> state" where
  "deliver dec s [] = s"
| "deliver dec s ((clk, m) # rest) = deliver dec (state_of (onmessage dec clk s m)) rest"

section \<open>Capture: onaudioprocess\<close>



text \<open>
  Storing a number into an \<^verbatim>\<open>Int16Array\<close> converts it with ToInt16: truncate towards
  zero, reduce modulo \<open>2^16\<close>, read the result as a signed 16-bit integer.
\<close>

definition truncate_toward_zero :: "real \<Rightarrow> int" where
  "truncate_toward_zero x = (if 0 \<le> x then \<lfloor>x\<rfloor> else \<lceil>x\<rceil>)"

definition ToInt16 :: "real \<Rightarrow> int" where
  "ToInt16 x = (let k = truncate_toward_zero x mod 65536 in if 32768 \<le> k then k - 65536 else k)"

definition floatToPCM16 :: "real list \<Rightarrow> int list" where
  "floatToPCM16 inputData = map (\<lambda>x. ToInt16 (x * 32768)) inputData"


section \<open>Messages, chunk sequences and worked inputs\<close>

text \<open>
  The state \<^verbatim>\<open>startConversation\<close> and \<^verbatim>\<open>onopen\<close> leave behind: the microphone
  stream with its one track, the session handle, the status \<^verbatim>\<open>CONNECTED\<close>.
\<close>

definition connected_session :: state where
  "connected_session = initial\<lparr>status := CONNECTED, sessionRef := Some 0, streamRef := Some [0]\<rparr>"

text \<open>Messages with one field set: a transcript delta, a turn-complete, audio, an interruption.\<close>

definition no_content :: LiveServerContent where
  "no_content = \<lparr>outputTranscription = None, inputTranscription = None, turnComplete = False,
     modelTurn = None, interrupted = False\<rparr>"

definition input_delta :: "string \<Rightarrow> LiveServerMessage" where
  "input_delta t =
     \<lparr>serverContent = Some (no_content\<lparr>inputTranscription := Some \<lparr>trans_text = Some t\<rparr>\<rparr>)\<rparr>"

definition output_delta :: "string \<Rightarrow> LiveServerMessage" where
  "output_delta t =
     \<lparr>serverContent = Some (no_content\<lparr>outputTranscription := Some \<lparr>trans_text = Some t\<rparr>\<rparr>)\<rparr>"

definition turn_complete :: LiveServerMessage where
  "turn_complete = \<lparr>serverContent = Some (no_content\<lparr>turnComplete := True\<rparr>)\<rparr>"

definition audio_chunk :: "string \<Rightarrow> LiveServerMessage" where
  "audio_chunk b64 = \<lparr>serverContent = Some (no_content\<lparr>modelTurn :=
     Some \<lparr>parts = Some [\<lparr>inlineData = Some \<lparr>data = Some b64\<rparr>\<rparr>]\<rparr>\<rparr>)\<rparr>"


text \<open>A transcript delta of the specification: a role and a text fragment.\<close>

type_synonym delta = "Role \<times> string"

fun delta_message :: "delta \<Rightarrow> LiveServerMessage" where
  "delta_message (user, t) = input_delta t"
| "delta_message (gemini, t) = output_delta t"

definition deltas :: "(clock \<times> delta) list \<Rightarrow> (clock \<times> LiveServerMessage) list" where
  "deltas cds = map (\<lambda>(clk, d). (clk, delta_message d)) cds"

text \<open>The fragments of one role, concatenated in delivery order.\<close>

definition role_text :: "Role \<Rightarrow> delta list \<Rightarrow> string" where
  "role_text r ds = concat (map snd (filter (\<lambda>d. fst d = r) ds))"

text \<open>A sequence of audio chunks, each with the clock readings of its arrival.\<close>

definition chunks :: "(clock \<times> string) list \<Rightarrow> (clock \<times> LiveServerMessage) list" where
  "chunks cs = map (\<lambda>(clk, b). (clk, audio_chunk b)) cs"

text \<open>Every chunk carries data, decodes, and has a duration that is not negative.\<close>

definition playable :: "(string \<Rightarrow> real option) \<Rightarrow> (clock \<times> string) list \<Rightarrow> bool" where
  "playable dec cs =
     list_all (\<lambda>(clk, b). b \<noteq> [] \<and> (case dec b of Some d \<Rightarrow> 0 \<le> d | None \<Rightarrow> False)) cs"

text \<open>The \<^verbatim>\<open>source.start\<close> calls that delivering the chunks adds to the log.\<close>

definition scheduled_by :: "(string \<Rightarrow> real option) \<Rightarrow> state \<Rightarrow> (clock \<times> string) list \<Rightarrow> scheduled list" where
  "scheduled_by dec s cs = drop (length (startCalls s)) (startCalls (deliver dec s (chunks cs)))"

text \<open>
  No underrun: every chunk after the first arrives while the output clock has not passed
  \<open>nextStartTimeRef\<close>, the scheduled end of the chunk before it.
\<close>

definition in_time :: "(string \<Rightarrow> real option) \<Rightarrow> state \<Rightarrow> (clock \<times> string) list \<Rightarrow> bool" where
  "in_time dec s cs =
     list_all (\<lambda>k. currentTime (fst (cs ! k)) \<le> nextStartTimeRef (deliver dec s (chunks (take k cs))))
       [1..<length cs]"


text \<open>Worked inputs: clock readings, a decoder, and a session in the middle of a turn.\<close>

definition at_time :: "real \<Rightarrow> clock" where
  "at_time t = \<lparr>currentTime = t, dateNow = 1000\<rparr>"

definition example_dec :: "string \<Rightarrow> real option" where
  "example_dec b = (if b = ''AAAA'' then Some 5 else if b = ''BBBB'' then Some 1 else None)"

definition midturn :: state where
  "midturn = deliver example_dec connected_session
     [(at_time 0, input_delta ''Hel''), (at_time 0, audio_chunk ''AAAA'')]"

definition late_chunks :: "(clock \<times> string) list" where
  "late_chunks = [(at_time 0, ''BBBB''), (at_time 5, ''BBBB'')]"

definition prompt_chunks :: "(clock \<times> string) list" where
  "prompt_chunks = [(at_time 0, ''AAAA''), (at_time 2, ''BBBB''), (at_time 3, ''BBBB'')]"

definition both_deltas :: LiveServerMessage where
  "both_deltas = \<lparr>serverContent = Some (no_content\<lparr>
     outputTranscription := Some \<lparr>trans_text = Some ''Hi''\<rparr>,
     inputTranscription := Some \<lparr>trans_text = Some ''Hel''\<rparr>\<rparr>)\<rparr>"

section \<open>What single messages do\<close>

lemma onmessage_input_delta:
  "onmessage dec clk s (input_delta t) =
     Fulfilled (s\<lparr>currentInputTransRef := currentInputTransRef s @ t\<rparr>)"
  by (simp add: onmessage_def input_delta_def no_content_def append_transcription_def
      flush_turn_def play_audio_def base64Audio_def stop_playback_def js_string_def)

lemma onmessage_output_delta:
  "onmessage dec clk s (output_delta t) =
     Fulfilled (s\<lparr>currentOutputTransRef := currentOutputTransRef s @ t\<rparr>)"
  by (simp add: onmessage_def output_delta_def no_content_def append_transcription_def
      flush_turn_def play_audio_def base64Audio_def stop_playback_def js_string_def)

lemma onmessage_turn_complete:
  "onmessage dec clk s turn_complete =
     Fulfilled (s\<lparr>history := history s @
          turn_entries (dateNow clk) (currentInputTransRef s) (currentOutputTransRef s),
        currentInputTransRef := [], currentOutputTransRef := []\<rparr>)"
  by (simp add: onmessage_def turn_complete_def no_content_def append_transcription_def
      flush_turn_def play_audio_def base64Audio_def stop_playback_def turn_entries_def Let_def)

lemma onmessage_audio_chunk:
  "b \<noteq> [] \<Longrightarrow> dec b = Some d \<Longrightarrow>
   onmessage dec clk s (audio_chunk b) =
     Fulfilled (s\<lparr>isGeminiSpeaking := True,
        nextStartTimeRef := max (nextStartTimeRef s) (currentTime clk) + d,
        startCalls := startCalls s @
          [\<lparr>source = length (startCalls s),
            start_at = max (nextStartTimeRef s) (currentTime clk), duration = d\<rparr>],
        activeSourcesRef := set_add (length (startCalls s)) (activeSourcesRef s)\<rparr>)"
  by (simp add: onmessage_def audio_chunk_def no_content_def append_transcription_def
      flush_turn_def play_audio_def base64Audio_def play_chunk_def stop_playback_def Let_def)

lemma deliver_append: "deliver dec s (xs @ ys) = deliver dec (deliver dec s xs) ys"
  by (induction xs arbitrary: s) auto

lemma midturn_eq:
  "midturn = connected_session\<lparr>currentInputTransRef := ''Hel'', isGeminiSpeaking := True,
      nextStartTimeRef := 5, startCalls := [\<lparr>source = 0, start_at = 0, duration = 5\<rparr>],
      activeSourcesRef := [0]\<rparr>"
  by (simp add: midturn_def onmessage_input_delta onmessage_audio_chunk [where d = 5]
      example_dec_def connected_session_def initial_def at_time_def set_add_def)

section \<open>Interruption\<close>

lemma interruption_fulfilled:
  "serverContent m = Some sc \<Longrightarrow> modelTurn sc = None \<Longrightarrow> \<not> rejected (onmessage dec clk s m)"
  by (simp add: onmessage_def play_audio_def base64Audio_def)







section \<open>Transcript\<close>

lemma deliver_deltas:
  "deliver dec s (deltas cds) =
     s\<lparr>currentInputTransRef := currentInputTransRef s @ role_text user (map snd cds),
       currentOutputTransRef := currentOutputTransRef s @ role_text gemini (map snd cds)\<rparr>"
proof (induction cds arbitrary: s)
  case Nil
  then show ?case by (simp add: deltas_def role_text_def)
next
  case (Cons cd cds)
  obtain clk r t where cd: "cd = (clk, (r, t))" by (cases cd) auto
  have step: "deliver dec s (deltas (cd # cds)) =
      deliver dec (state_of (onmessage dec clk s (delta_message (r, t)))) (deltas cds)"
    by (simp add: deltas_def cd)
  show ?case
  proof (cases r)
    case user
    then show ?thesis
      unfolding step using Cons.IH
      by (simp add: onmessage_input_delta role_text_def cd)
  next
    case gemini
    then show ?thesis
      unfolding step using Cons.IH
      by (simp add: onmessage_output_delta role_text_def cd)
  qed
qed

text \<open>
  C3. After any sequence of transcript deltas each accumulator holds what it held before
  followed by the fragments of its role in delivery order, and a turn-complete after them
  appends to the transcript log the user entry, if the user text is non-empty, and then the
  model entry, if the model text is non-empty.
\<close>

theorem transcript_ordering:
  "currentInputTransRef (deliver dec s (deltas cds)) =
     currentInputTransRef s @ role_text user (map snd cds) \<and>
   currentOutputTransRef (deliver dec s (deltas cds)) =
     currentOutputTransRef s @ role_text gemini (map snd cds) \<and>
   history (deliver dec s (deltas cds @ [(clk, turn_complete)])) =
     history s @
     (if currentInputTransRef s @ role_text user (map snd cds) \<noteq> []
      then [\<lparr>role = user, entry_text = currentInputTransRef s @ role_text user (map snd cds),
              timestamp = dateNow clk\<rparr>] else []) @
     (if currentOutputTransRef s @ role_text gemini (map snd cds) \<noteq> []
      then [\<lparr>role = gemini, entry_text = currentOutputTransRef s @ role_text gemini (map snd cds),
              timestamp = dateNow clk\<rparr>] else [])"
  by (simp add: deliver_append deliver_deltas onmessage_turn_complete turn_entries_def)

theorem transcript_ordering_witness:
  "history (deliver example_dec connected_session
      (deltas [(at_time 0, (user, ''Hel'')), (at_time 1, (user, ''lo'')),
               (at_time 2, (gemini, ''Hi''))] @ [(at_time 3, turn_complete)])) =
     [\<lparr>role = user, entry_text = ''Hello'', timestamp = 1000\<rparr>,
      \<lparr>role = gemini, entry_text = ''Hi'', timestamp = 1000\<rparr>]"
  using transcript_ordering [of example_dec connected_session
     "[(at_time 0, (user, ''Hel'')), (at_time 1, (user, ''lo'')), (at_time 2, (gemini, ''Hi''))]"
     "at_time 3"]
  by (simp add: role_text_def connected_session_def initial_def at_time_def)

section \<open>Teardown and the error callback\<close>

text \<open>
  C4. The error callback sets the status to \<^verbatim>\<open>ERROR\<close> and then runs the teardown, whose
  own \<^verbatim>\<open>setStatus(DISCONNECTED)\<close> comes last: when the callback is done the status is
  \<^verbatim>\<open>DISCONNECTED\<close>, from every state, and \<^verbatim>\<open>ERROR\<close> is never what the caller sees.
\<close>

theorem onerror_status: "status (onerror s) = DISCONNECTED"
  by (simp add: onerror_def stopConversation_def Let_def split: option.splits)

text \<open>
  C5. The teardown closes the session and drops its handle, stops every track of the
  microphone stream and drops the stream, calls \<^verbatim>\<open>stop\<close> on every active source and
  empties the set, and appends nothing to the transcript log; the two transcription
  accumulators are not cleared, they keep the text they held.
\<close>

theorem teardown_effects:
  "sessionRef (stopConversation s) = None \<and>
   closeCalls (stopConversation s) =
     closeCalls s @ (case sessionRef s of Some h \<Rightarrow> [h] | None \<Rightarrow> []) \<and>
   streamRef (stopConversation s) = None \<and>
   trackStopCalls (stopConversation s) =
     trackStopCalls s @ (case streamRef s of Some tracks \<Rightarrow> tracks | None \<Rightarrow> []) \<and>
   stopCalls (stopConversation s) = stopCalls s @ activeSourcesRef s \<and>
   activeSourcesRef (stopConversation s) = [] \<and>
   history (stopConversation s) = history s \<and>
   currentInputTransRef (stopConversation s) = currentInputTransRef s \<and>
   currentOutputTransRef (stopConversation s) = currentOutputTransRef s"
  by (simp add: stopConversation_def Let_def split: option.splits)

theorem teardown_effects_witness:
  "closeCalls (stopConversation midturn) = [0] \<and>
   trackStopCalls (stopConversation midturn) = [0] \<and>
   stopCalls (stopConversation midturn) = [0] \<and>
   history (stopConversation midturn) = []"
  using teardown_effects [of midturn]
  by (simp add: midturn_eq connected_session_def initial_def)

text \<open>
  The claim as stated fails: a teardown in the middle of a turn leaves the user's
  accumulated text where it was.
\<close>

theorem teardown_keeps_accumulator_counterexample:
  "currentInputTransRef (stopConversation midturn) = ''Hel''"
  by (simp add: midturn_eq stopConversation_def connected_session_def initial_def Let_def)

text \<open>
  C8. A stop leaves the status \<^verbatim>\<open>DISCONNECTED\<close>, from every state and so from
  \<^verbatim>\<open>CONNECTED\<close>; a second stop right after it changes nothing at all: the state after two
  stops is the state after one, logs of \<^verbatim>\<open>close\<close> and \<^verbatim>\<open>stop\<close> calls included, so
  nothing is released twice. A stop in the state the component starts in changes nothing
  either.
\<close>

theorem stop_idempotent:
  "status (stopConversation s) = DISCONNECTED \<and>
   status (stopConversation (stopConversation s)) = DISCONNECTED \<and>
   stopConversation (stopConversation s) = stopConversation s \<and>
   stopConversation initial = initial"
  by (simp add: stopConversation_def initial_def Let_def split: option.splits)

theorem stop_idempotent_witness:
  "status connected_session = CONNECTED \<and>
   status (stopConversation connected_session) = DISCONNECTED \<and>
   closeCalls (stopConversation (stopConversation connected_session)) = [0] \<and>
   trackStopCalls (stopConversation (stopConversation connected_session)) = [0]"
  using stop_idempotent [of connected_session]
  by (simp add: stopConversation_def connected_session_def initial_def Let_def)

section \<open>Turn-complete and colliding deltas\<close>

lemma play_chunk_transcript:
  "history (state_of (play_chunk dec clk s b)) = history s"
  "currentInputTransRef (state_of (play_chunk dec clk s b)) = currentInputTransRef s"
  "currentOutputTransRef (state_of (play_chunk dec clk s b)) = currentOutputTransRef s"
  by (simp_all add: play_chunk_def Let_def split: option.splits)

lemma play_audio_transcript:
  "history (state_of (play_audio dec clk s m)) = history s"
  "currentInputTransRef (state_of (play_audio dec clk s m)) = currentInputTransRef s"
  "currentOutputTransRef (state_of (play_audio dec clk s m)) = currentOutputTransRef s"
  by (simp_all add: play_audio_def play_chunk_transcript split: sum.splits option.splits)

lemma state_of_onmessage:
  "state_of (onmessage dec clk s m) =
     (let s3 = state_of (play_audio dec clk (flush_turn clk (append_transcription s m) m) m)
      in if rejected (onmessage dec clk s m) then s3 else stop_playback s3 m)"
  by (simp add: onmessage_def Let_def split: outcome.splits)

lemma stop_playback_transcript:
  "history (stop_playback s m) = history s"
  "currentInputTransRef (stop_playback s m) = currentInputTransRef s"
  "currentOutputTransRef (stop_playback s m) = currentOutputTransRef s"
  by (simp_all add: stop_playback_def Let_def split: option.splits)

lemma onmessage_transcript:
  "history (state_of (onmessage dec clk s m)) = history (flush_turn clk (append_transcription s m) m)"
  "currentInputTransRef (state_of (onmessage dec clk s m)) =
     currentInputTransRef (flush_turn clk (append_transcription s m) m)"
  "currentOutputTransRef (state_of (onmessage dec clk s m)) =
     currentOutputTransRef (flush_turn clk (append_transcription s m) m)"
  by (simp_all add: state_of_onmessage Let_def play_audio_transcript stop_playback_transcript)

text \<open>
  C7. At every message with the turn-complete flag both accumulators are empty afterwards,
  whatever they held. The log grows by the user entry, if the user text accumulated up to
  and including this message is non-empty, and then the model entry, if the model text is
  non-empty: an empty text never gives an entry, and when both are empty the log is unchanged.
\<close>

theorem turn_complete_resets:
  assumes "serverContent m = Some sc" and "turnComplete sc"
  shows "currentInputTransRef (state_of (onmessage dec clk s m)) = [] \<and>
         currentOutputTransRef (state_of (onmessage dec clk s m)) = [] \<and>
         history (state_of (onmessage dec clk s m)) =
           history s @
           (if currentInputTransRef (append_transcription s m) \<noteq> []
            then [\<lparr>role = user, entry_text = currentInputTransRef (append_transcription s m),
                    timestamp = dateNow clk\<rparr>] else []) @
           (if currentOutputTransRef (append_transcription s m) \<noteq> []
            then [\<lparr>role = gemini, entry_text = currentOutputTransRef (append_transcription s m),
                    timestamp = dateNow clk\<rparr>] else []) \<and>
         (currentInputTransRef (append_transcription s m) = [] \<and>
          currentOutputTransRef (append_transcription s m) = [] \<longrightarrow>
            history (state_of (onmessage dec clk s m)) = history s)"
proof -
  have h: "history (append_transcription s m) = history s"
    by (simp add: append_transcription_def split: option.splits)
  show ?thesis
    using assms h
    by (simp add: onmessage_transcript flush_turn_def turn_entries_def Let_def)
qed

theorem turn_complete_resets_witness:
  "history (state_of (onmessage example_dec (at_time 0) connected_session turn_complete)) = [] \<and>
   currentInputTransRef (state_of (onmessage example_dec (at_time 0) midturn turn_complete)) = [] \<and>
   history (state_of (onmessage example_dec (at_time 0) midturn turn_complete)) =
     [\<lparr>role = user, entry_text = ''Hel'', timestamp = 1000\<rparr>]"
proof -
  have sc: "serverContent turn_complete = Some (no_content\<lparr>turnComplete := True\<rparr>)"
    by (simp add: turn_complete_def)
  have tc: "turnComplete (no_content\<lparr>turnComplete := True\<rparr>)" by simp
  have a: "append_transcription s turn_complete = s" for s
    by (simp add: append_transcription_def turn_complete_def no_content_def)
  show ?thesis
    using turn_complete_resets [OF sc tc, of example_dec "at_time 0" connected_session]
      turn_complete_resets [OF sc tc, of example_dec "at_time 0" midturn]
    by (simp add: a midturn_eq connected_session_def initial_def at_time_def)
qed

text \<open>
  C10. When one message carries an output delta and an input delta, the output text is
  appended to the model accumulator and the user accumulator is left as it was: the handler
  does exactly what it does on the same message without the input delta.
\<close>

theorem output_delta_shadows_input:
  assumes "serverContent m = Some sc" and "outputTranscription sc = Some ot"
    and "inputTranscription sc = Some it"
  shows "currentOutputTransRef (append_transcription s m) =
           currentOutputTransRef s @ js_string (trans_text ot) \<and>
         currentInputTransRef (append_transcription s m) = currentInputTransRef s \<and>
         onmessage dec clk s m =
           onmessage dec clk s (m\<lparr>serverContent := Some (sc\<lparr>inputTranscription := None\<rparr>)\<rparr>) \<and>
         (\<not> turnComplete sc \<longrightarrow>
            currentOutputTransRef (state_of (onmessage dec clk s m)) =
              currentOutputTransRef s @ js_string (trans_text ot) \<and>
            currentInputTransRef (state_of (onmessage dec clk s m)) = currentInputTransRef s)"
proof -
  define m' where "m' = m\<lparr>serverContent := Some (sc\<lparr>inputTranscription := None\<rparr>)\<rparr>"
  have app: "append_transcription s m =
      s\<lparr>currentOutputTransRef := currentOutputTransRef s @ js_string (trans_text ot)\<rparr>"
    using assms by (simp add: append_transcription_def)
  have app': "append_transcription s m' = append_transcription s m"
    using assms by (simp add: append_transcription_def m'_def)
  have fl: "flush_turn clk x m' = flush_turn clk x m" for x
    using assms by (simp add: flush_turn_def m'_def)
  have b64: "base64Audio m' = base64Audio m"
    using assms by (simp add: base64Audio_def m'_def)
  have pa: "play_audio dec clk x m' = play_audio dec clk x m" for x
    by (simp add: play_audio_def b64)
  have sp: "stop_playback x m' = stop_playback x m" for x
    using assms by (simp add: stop_playback_def m'_def)
  have same: "onmessage dec clk s m = onmessage dec clk s m'"
    by (simp add: onmessage_def app' fl pa sp cong: outcome.case_cong)
  have nf: "\<not> turnComplete sc \<Longrightarrow> flush_turn clk x m = x" for x
    using assms by (simp add: flush_turn_def)
  have acc: "\<not> turnComplete sc \<Longrightarrow>
      currentOutputTransRef (state_of (onmessage dec clk s m)) =
        currentOutputTransRef s @ js_string (trans_text ot) \<and>
      currentInputTransRef (state_of (onmessage dec clk s m)) = currentInputTransRef s"
    by (simp add: onmessage_transcript nf app)
  show ?thesis
    using same acc by (simp add: app m'_def)
qed

theorem output_delta_shadows_input_witness:
  "currentOutputTransRef (state_of (onmessage example_dec (at_time 0) midturn both_deltas)) = ''Hi'' \<and>
   currentInputTransRef (state_of (onmessage example_dec (at_time 0) midturn both_deltas)) = ''Hel''"
proof -
  define sc where "sc = no_content\<lparr>outputTranscription := Some \<lparr>trans_text = Some ''Hi''\<rparr>,
     inputTranscription := Some \<lparr>trans_text = Some ''Hel''\<rparr>\<rparr>"
  have 1: "serverContent both_deltas = Some sc" by (simp add: both_deltas_def sc_def)
  have 2: "outputTranscription sc = Some \<lparr>trans_text = Some ''Hi''\<rparr>" by (simp add: sc_def)
  have 3: "inputTranscription sc = Some \<lparr>trans_text = Some ''Hel''\<rparr>" by (simp add: sc_def)
  have 4: "\<not> turnComplete sc" by (simp add: sc_def no_content_def)
  have "currentOutputTransRef (state_of (onmessage example_dec (at_time 0) midturn both_deltas)) =
          currentOutputTransRef midturn @ js_string (trans_text \<lparr>trans_text = Some ''Hi''\<rparr>) \<and>
        currentInputTransRef (state_of (onmessage example_dec (at_time 0) midturn both_deltas)) =
          currentInputTransRef midturn"
    using output_delta_shadows_input [OF 1 2 3, of midturn example_dec "at_time 0"] 4
    by blast
  then show ?thesis
    by (simp add: midturn_eq connected_session_def initial_def js_string_def)
qed

section \<open>The 16-bit conversion\<close>

lemma ToInt16_range: "- 32768 \<le> ToInt16 x \<and> ToInt16 x \<le> 32767"
proof -
  have "0 \<le> truncate_toward_zero x mod 65536" "truncate_toward_zero x mod 65536 < 65536" by simp_all
  then show ?thesis by (auto simp add: ToInt16_def Let_def)
qed

lemma ToInt16_cong: "ToInt16 x mod 65536 = truncate_toward_zero x mod 65536"
  by (simp add: ToInt16_def Let_def)

lemma truncate_bounds:
  assumes "- 32768 \<le> y" and "y < 32768"
  shows "- 32768 \<le> truncate_toward_zero y \<and> truncate_toward_zero y \<le> 32767"
proof (cases "0 \<le> y")
  case True
  then have "0 \<le> \<lfloor>y\<rfloor>" by simp
  moreover have "\<lfloor>y\<rfloor> < 32768" using assms(2) by (simp add: floor_less_iff)
  ultimately show ?thesis using True by (simp add: truncate_toward_zero_def)
next
  case False
  then have "\<lceil>y\<rceil> \<le> 0" by (simp add: ceiling_le_iff)
  moreover have "- 32768 \<le> \<lceil>y\<rceil>" using assms(1) by (simp add: le_ceiling_iff)
  ultimately show ?thesis using False by (simp add: truncate_toward_zero_def)
qed

lemma ToInt16_in_range:
  assumes "- 32768 \<le> k" and "k \<le> 32767"
  shows "(let r = k mod 65536 in if 32768 \<le> r then r - 65536 else r) = (k::int)"
proof (cases "0 \<le> k")
  case True
  then have "k mod 65536 = k" using assms by simp
  then show ?thesis using assms by simp
next
  case False
  then have "(k + 65536) mod 65536 = k + 65536"
    using assms by (intro mod_pos_pos_trivial) simp_all
  then have "k mod 65536 = k + 65536" by simp
  then show ?thesis using False assms by simp
qed

lemma ToInt16_unit:
  assumes "- 1 \<le> x" and "x < 1"
  shows "ToInt16 (x * 32768) = truncate_toward_zero (x * 32768)"
proof -
  have "- 32768 \<le> x * 32768" "x * 32768 < 32768" using assms by simp_all
  then have "- 32768 \<le> truncate_toward_zero (x * 32768) \<and> truncate_toward_zero (x * 32768) \<le> 32767"
    by (rule truncate_bounds)
  then show ?thesis
    unfolding ToInt16_def using ToInt16_in_range by simp
qed

text \<open>
  C6. The conversion does not clamp. Each sample is scaled by 32768, truncated towards zero
  and wrapped modulo \<open>2^16\<close> into the signed 16-bit range, so every result lies between
  -32768 and 32767 and agrees with the truncated scaled sample modulo 65536; a sample from
  -1.0 up to but not including 1.0 gives exactly its truncated scaled value, -1.0 gives
  -32768 and 0.5 gives 16384; the output has one value per sample and no input makes the
  conversion fail.
\<close>

theorem pcm_conversion_wraps:
  "floatToPCM16 [- 1] = [- 32768] \<and>
   floatToPCM16 [1 / 2] = [16384] \<and>
   length (floatToPCM16 xs) = length xs \<and>
   (\<forall>i < length xs.
      - 32768 \<le> floatToPCM16 xs ! i \<and> floatToPCM16 xs ! i \<le> 32767 \<and>
      floatToPCM16 xs ! i mod 65536 = truncate_toward_zero (xs ! i * 32768) mod 65536 \<and>
      (- 1 \<le> xs ! i \<and> xs ! i < 1 \<longrightarrow> floatToPCM16 xs ! i = truncate_toward_zero (xs ! i * 32768)))"
proof -
  have a: "floatToPCM16 [- 1] = [- 32768]"
    by (simp add: floatToPCM16_def ToInt16_def truncate_toward_zero_def)
  have b: "floatToPCM16 [1 / 2] = [16384]"
    by (simp add: floatToPCM16_def ToInt16_def truncate_toward_zero_def)
  show ?thesis
    using a b by (simp add: floatToPCM16_def ToInt16_range ToInt16_cong ToInt16_unit)
qed

theorem pcm_conversion_wraps_witness:
  "floatToPCM16 [- 1 / 4, 3 / 2] ! 0 = - 8192 \<and> floatToPCM16 [- 1 / 4, 3 / 2] ! 1 = - 16384"
proof -
  have t: "truncate_toward_zero (- 1 / 4 * 32768) = - 8192" by (simp add: truncate_toward_zero_def)
  have "floatToPCM16 [- 1 / 4, 3 / 2] ! 0 = truncate_toward_zero ([- 1 / 4, 3 / 2] ! 0 * 32768)"
    using pcm_conversion_wraps [of "[- 1 / 4, 3 / 2]"] by simp
  then show ?thesis
    by (simp add: t floatToPCM16_def ToInt16_def truncate_toward_zero_def)
qed

text \<open>
  The claim as stated fails: 1.5 is not converted like 1.0. The scaled 1.5 wraps to -16384,
  the scaled 1.0 wraps to -32768.
\<close>

theorem pcm_no_clamp_counterexample:
  "floatToPCM16 [3 / 2] = [- 16384] \<and> floatToPCM16 [1] = [- 32768] \<and>
   floatToPCM16 [3 / 2] \<noteq> floatToPCM16 [1]"
  by (simp add: floatToPCM16_def ToInt16_def truncate_toward_zero_def)

section \<open>The speech-activity signal\<close>




section \<open>Playback scheduling\<close>

lemma onmessage_audio:
  "onmessage dec clk s (audio_chunk b) = (if b \<noteq> [] then play_chunk dec clk s b else Fulfilled s)"
  by (cases "play_chunk dec clk s b")
    (simp_all add: onmessage_def audio_chunk_def no_content_def append_transcription_def
      flush_turn_def play_audio_def base64Audio_def stop_playback_def Let_def)

lemma deliver_chunks_snoc:
  "deliver dec s (chunks (cs @ [(clk, b)])) =
     state_of (onmessage dec clk (deliver dec s (chunks cs)) (audio_chunk b))"
  by (simp add: chunks_def deliver_append)

lemma playable_snoc:
  "playable dec (cs @ [(clk, b)]) \<longleftrightarrow>
     playable dec cs \<and> b \<noteq> [] \<and> (\<exists>d. dec b = Some d \<and> 0 \<le> d)"
  by (auto simp add: playable_def split: option.splits)

lemma playable_take: "playable dec cs \<Longrightarrow> playable dec (take n cs)"
  unfolding playable_def list_all_iff by (auto dest: in_set_takeD)

lemma playable_nth:
  "playable dec cs \<Longrightarrow> k < length cs \<Longrightarrow>
     snd (cs ! k) \<noteq> [] \<and> (\<exists>d. dec (snd (cs ! k)) = Some d \<and> 0 \<le> d)"
  unfolding playable_def list_all_iff
  by (cases "cs ! k") (force split: option.splits dest: nth_mem)

text \<open>One more chunk at the end of a sequence: what the log and the next start time become.\<close>

lemma deliver_snoc_chunk:
  assumes "b \<noteq> []" and "dec b = Some d"
  shows "startCalls (deliver dec s (chunks (cs @ [(clk, b)]))) =
           startCalls (deliver dec s (chunks cs)) @
             [\<lparr>source = length (startCalls (deliver dec s (chunks cs))),
               start_at = max (nextStartTimeRef (deliver dec s (chunks cs))) (currentTime clk),
               duration = d\<rparr>]"
    and "nextStartTimeRef (deliver dec s (chunks (cs @ [(clk, b)]))) =
           max (nextStartTimeRef (deliver dec s (chunks cs))) (currentTime clk) + d"
  using assms by (simp_all add: deliver_chunks_snoc onmessage_audio_chunk)

lemma startCalls_deliver:
  "playable dec cs \<Longrightarrow>
     startCalls (deliver dec s (chunks cs)) = startCalls s @ scheduled_by dec s cs \<and>
     length (scheduled_by dec s cs) = length cs"
proof (induction cs rule: rev_induct)
  case Nil
  then show ?case by (simp add: scheduled_by_def chunks_def)
next
  case (snoc c cs)
  obtain clk b where c: "c = (clk, b)" by (cases c)
  from snoc.prems obtain d where p: "playable dec cs" "b \<noteq> []" "dec b = Some d"
    by (auto simp add: c playable_snoc)
  have ih: "startCalls (deliver dec s (chunks cs)) = startCalls s @ scheduled_by dec s cs"
    "length (scheduled_by dec s cs) = length cs"
    using snoc.IH [OF p(1)] by simp_all
  have "startCalls (deliver dec s (chunks (cs @ [c]))) =
      startCalls s @ scheduled_by dec s cs @
        [\<lparr>source = length (startCalls (deliver dec s (chunks cs))),
          start_at = max (nextStartTimeRef (deliver dec s (chunks cs))) (currentTime clk),
          duration = d\<rparr>]"
    unfolding c deliver_snoc_chunk(1) [where dec = dec and b = b and d = d, OF p(2,3)] using ih(1) by simp
  then show ?case
    by (simp add: scheduled_by_def [of dec s "cs @ [c]"] ih(2))
qed

lemma scheduled_by_snoc:
  assumes "playable dec cs" and "b \<noteq> []" and "dec b = Some d"
  shows "scheduled_by dec s (cs @ [(clk, b)]) =
           scheduled_by dec s cs @
             [\<lparr>source = length (startCalls s) + length cs,
               start_at = max (nextStartTimeRef (deliver dec s (chunks cs))) (currentTime clk),
               duration = d\<rparr>]"
proof -
  have a: "startCalls (deliver dec s (chunks cs)) = startCalls s @ scheduled_by dec s cs"
    "length (scheduled_by dec s cs) = length cs"
    using startCalls_deliver [OF assms(1)] by simp_all
  show ?thesis
    unfolding scheduled_by_def [of dec s "cs @ [(clk, b)]"] deliver_snoc_chunk(1) [where dec = dec and b = b and d = d, OF assms(2,3)]
    by (simp add: a)
qed

lemma scheduled_by_take:
  "playable dec cs \<Longrightarrow> scheduled_by dec s (take n cs) = take n (scheduled_by dec s cs)"
proof (induction cs rule: rev_induct)
  case Nil
  then show ?case by (simp add: scheduled_by_def chunks_def)
next
  case (snoc c cs)
  obtain clk b where c: "c = (clk, b)" by (cases c)
  from snoc.prems obtain d where p: "playable dec cs" "b \<noteq> []" "dec b = Some d"
    by (auto simp add: c playable_snoc)
  have len: "length (scheduled_by dec s cs) = length cs"
    using startCalls_deliver [OF p(1)] by simp
  have len': "length (scheduled_by dec s (cs @ [c])) = Suc (length cs)"
    using startCalls_deliver [OF snoc.prems] by simp
  show ?case
  proof (cases "n \<le> length cs")
    case True
    then show ?thesis
      using snoc.IH [OF p(1)] by (simp add: c scheduled_by_snoc [where dec = dec and b = b and d = d, OF p] len)
  next
    case False
    then show ?thesis by (simp add: len')
  qed
qed

text \<open>The k-th chunk of a playable sequence, seen as the last chunk of a prefix.\<close>

lemma chunk_rule:
  assumes "playable dec cs" and "k < length cs"
  shows "start_at (scheduled_by dec s cs ! k) =
           max (nextStartTimeRef (deliver dec s (chunks (take k cs)))) (currentTime (fst (cs ! k)))"
    and "dec (snd (cs ! k)) = Some (duration (scheduled_by dec s cs ! k))"
    and "0 \<le> duration (scheduled_by dec s cs ! k)"
    and "nextStartTimeRef (deliver dec s (chunks (take (Suc k) cs))) =
           start_at (scheduled_by dec s cs ! k) + duration (scheduled_by dec s cs ! k)"
proof -
  obtain clk b where c: "cs ! k = (clk, b)" by (cases "cs ! k")
  from playable_nth [OF assms] obtain d where d: "b \<noteq> []" "dec b = Some d" "0 \<le> d"
    by (auto simp add: c)
  have tk: "take (Suc k) cs = take k cs @ [(clk, b)]"
    using assms(2) by (simp add: take_Suc_conv_app_nth c)
  have pk: "playable dec (take k cs)" using assms(1) by (rule playable_take)
  have lk: "length (scheduled_by dec s (take k cs)) = k"
    using startCalls_deliver [OF pk, of s] assms(2) by simp
  have "scheduled_by dec s cs ! k = take (Suc k) (scheduled_by dec s cs) ! k" by simp
  also have "\<dots> = scheduled_by dec s (take (Suc k) cs) ! k"
    by (simp add: scheduled_by_take [OF assms(1)])
  also have "\<dots> = \<lparr>source = length (startCalls s) + length (take k cs),
      start_at = max (nextStartTimeRef (deliver dec s (chunks (take k cs)))) (currentTime clk),
      duration = d\<rparr>"
    unfolding tk scheduled_by_snoc [where dec = dec and b = b and d = d, OF pk d(1,2)] using lk by (simp add: nth_append)
  finally have e: "scheduled_by dec s cs ! k = \<lparr>source = length (startCalls s) + length (take k cs),
      start_at = max (nextStartTimeRef (deliver dec s (chunks (take k cs)))) (currentTime clk),
      duration = d\<rparr>" .
  show "start_at (scheduled_by dec s cs ! k) =
           max (nextStartTimeRef (deliver dec s (chunks (take k cs)))) (currentTime (fst (cs ! k)))"
    by (simp add: e c)
  show "dec (snd (cs ! k)) = Some (duration (scheduled_by dec s cs ! k))"
    by (simp add: e c d)
  show "0 \<le> duration (scheduled_by dec s cs ! k)"
    by (simp add: e d)
  show "nextStartTimeRef (deliver dec s (chunks (take (Suc k) cs))) =
           start_at (scheduled_by dec s cs ! k) + duration (scheduled_by dec s cs ! k)"
    unfolding tk deliver_snoc_chunk(2) [where dec = dec and b = b and d = d, OF d(1,2)] by (simp add: e)
qed

lemma next_start_mono:
  assumes "playable dec cs" and "m \<le> length cs" and "n \<le> m"
  shows "nextStartTimeRef (deliver dec s (chunks (take n cs))) \<le>
         nextStartTimeRef (deliver dec s (chunks (take m cs)))"
  using assms(2,3)
proof (induction m)
  case 0
  then show ?case by simp
next
  case (Suc m)
  show ?case
  proof (cases "n = Suc m")
    case True
    then show ?thesis by simp
  next
    case False
    then have "n \<le> m" using Suc.prems by simp
    then have "nextStartTimeRef (deliver dec s (chunks (take n cs))) \<le>
        nextStartTimeRef (deliver dec s (chunks (take m cs)))"
      using Suc by simp
    also have "\<dots> \<le> nextStartTimeRef (deliver dec s (chunks (take (Suc m) cs)))"
      using chunk_rule [OF assms(1), of m s] Suc.prems by simp
    finally show ?thesis .
  qed
qed

lemma no_overlap:
  assumes "playable dec cs" and "i < j" and "j < length cs"
  shows "start_at (scheduled_by dec s cs ! i) + duration (scheduled_by dec s cs ! i) \<le>
         start_at (scheduled_by dec s cs ! j)"
proof -
  have "start_at (scheduled_by dec s cs ! i) + duration (scheduled_by dec s cs ! i) =
      nextStartTimeRef (deliver dec s (chunks (take (Suc i) cs)))"
    using chunk_rule(4) [OF assms(1), of i s] assms(2,3) by simp
  also have "\<dots> \<le> nextStartTimeRef (deliver dec s (chunks (take j cs)))"
    using next_start_mono [OF assms(1), of j "Suc i" s] assms(2,3) by simp
  also have "\<dots> \<le> start_at (scheduled_by dec s cs ! j)"
    using chunk_rule(1) [OF assms(1,3), of s] by simp
  finally show ?thesis .
qed

lemma in_time_nth:
  "in_time dec s cs \<Longrightarrow> 0 < k \<Longrightarrow> k < length cs \<Longrightarrow>
     currentTime (fst (cs ! k)) \<le> nextStartTimeRef (deliver dec s (chunks (take k cs)))"
  by (simp add: in_time_def list_all_iff)

lemma back_to_back:
  assumes "playable dec cs" and "in_time dec s cs" and "k < length cs"
  shows "nextStartTimeRef (deliver dec s (chunks (take (Suc k) cs))) =
         start_at (scheduled_by dec s cs ! 0) +
           sum_list (map duration (take (Suc k) (scheduled_by dec s cs)))"
  using assms(3)
proof (induction k)
  case 0
  have l: "length (scheduled_by dec s cs) = length cs"
    using startCalls_deliver [OF assms(1)] by simp
  have "take (Suc 0) (scheduled_by dec s cs) = [scheduled_by dec s cs ! 0]"
    using 0 l by (simp add: take_Suc_conv_app_nth)
  then show ?case
    using chunk_rule(4) [OF assms(1) 0, of s] by simp
next
  case (Suc k)
  have l: "length (scheduled_by dec s cs) = length cs"
    using startCalls_deliver [OF assms(1)] by simp
  have t: "take (Suc (Suc k)) (scheduled_by dec s cs) =
      take (Suc k) (scheduled_by dec s cs) @ [scheduled_by dec s cs ! Suc k]"
    using Suc.prems l by (simp add: take_Suc_conv_app_nth)
  have "currentTime (fst (cs ! Suc k)) \<le> nextStartTimeRef (deliver dec s (chunks (take (Suc k) cs)))"
    using in_time_nth [OF assms(2), of "Suc k"] Suc.prems by simp
  then have st: "start_at (scheduled_by dec s cs ! Suc k) =
      nextStartTimeRef (deliver dec s (chunks (take (Suc k) cs)))"
    using chunk_rule(1) [OF assms(1) Suc.prems, of s] by simp
  have "nextStartTimeRef (deliver dec s (chunks (take (Suc (Suc k)) cs))) =
      start_at (scheduled_by dec s cs ! Suc k) + duration (scheduled_by dec s cs ! Suc k)"
    using chunk_rule(4) [OF assms(1) Suc.prems, of s] .
  then show ?case
    using Suc st by (simp add: t)
qed

lemma start_is_sum:
  assumes "playable dec cs" and "in_time dec s cs" and "k < length cs"
  shows "start_at (scheduled_by dec s cs ! k) =
         start_at (scheduled_by dec s cs ! 0) +
           sum_list (map duration (take k (scheduled_by dec s cs)))"
proof (cases k)
  case 0
  then show ?thesis by simp
next
  case (Suc n)
  have "currentTime (fst (cs ! k)) \<le> nextStartTimeRef (deliver dec s (chunks (take k cs)))"
    using in_time_nth [OF assms(2), of k] assms(3) Suc by simp
  then have "start_at (scheduled_by dec s cs ! k) =
      nextStartTimeRef (deliver dec s (chunks (take k cs)))"
    using chunk_rule(1) [OF assms(1,3), of s] by simp
  then show ?thesis
    using back_to_back [OF assms(1,2), of n] assms(3) Suc by simp
qed

text \<open>
  C1. For a sequence of audio chunks that carry data and decode to a duration that is not
  negative, delivered one after the other with no interruption in between: every chunk gets
  one \<^verbatim>\<open>start\<close> call; the chunk's start time is the larger of \<open>nextStartTimeRef\<close> and the
  output clock at its arrival, and \<open>nextStartTimeRef\<close> becomes that start time plus the
  chunk's duration; an earlier chunk's scheduled end never lies after a later chunk's start, so
  no two scheduled intervals overlap; and when no chunk after the first arrives with the
  output clock past \<open>nextStartTimeRef\<close>, the k-th start time is the first start time plus the
  durations of the chunks before it.
\<close>

theorem gapless_scheduling:
  assumes "playable dec cs"
  shows "length (scheduled_by dec s cs) = length cs \<and>
    (\<forall>k < length cs.
       start_at (scheduled_by dec s cs ! k) =
         max (nextStartTimeRef (deliver dec s (chunks (take k cs)))) (currentTime (fst (cs ! k))) \<and>
       dec (snd (cs ! k)) = Some (duration (scheduled_by dec s cs ! k)) \<and>
       nextStartTimeRef (deliver dec s (chunks (take (Suc k) cs))) =
         start_at (scheduled_by dec s cs ! k) + duration (scheduled_by dec s cs ! k)) \<and>
    (\<forall>i j. i < j \<and> j < length cs \<longrightarrow>
       start_at (scheduled_by dec s cs ! i) + duration (scheduled_by dec s cs ! i) \<le>
         start_at (scheduled_by dec s cs ! j)) \<and>
    (in_time dec s cs \<longrightarrow>
       (\<forall>k < length cs.
          start_at (scheduled_by dec s cs ! k) =
            start_at (scheduled_by dec s cs ! 0) +
              sum_list (map duration (take k (scheduled_by dec s cs)))))"
  using startCalls_deliver [OF assms, of s] chunk_rule [OF assms, of _ s]
    no_overlap [OF assms, of _ _ s] start_is_sum [OF assms, of s]
  by blast


lemma scheduled_by_prompt_chunks:
  "scheduled_by example_dec connected_session prompt_chunks =
     [\<lparr>source = 0, start_at = 0, duration = 5\<rparr>, \<lparr>source = 1, start_at = 5, duration = 1\<rparr>,
      \<lparr>source = 2, start_at = 6, duration = 1\<rparr>]"
  by (simp add: scheduled_by_def chunks_def prompt_chunks_def onmessage_audio play_chunk_def
      example_dec_def connected_session_def initial_def at_time_def set_add_def Let_def)

lemma scheduled_by_late_chunks:
  "scheduled_by example_dec connected_session late_chunks =
     [\<lparr>source = 0, start_at = 0, duration = 1\<rparr>, \<lparr>source = 1, start_at = 5, duration = 1\<rparr>]"
  by (simp add: scheduled_by_def chunks_def late_chunks_def onmessage_audio play_chunk_def
      example_dec_def connected_session_def initial_def at_time_def set_add_def Let_def)

lemma playable_examples:
  "playable example_dec prompt_chunks" "playable example_dec late_chunks"
  by (simp_all add: playable_def prompt_chunks_def late_chunks_def example_dec_def)

lemma in_time_prompt_chunks: "in_time example_dec connected_session prompt_chunks"
  by (simp add: in_time_def prompt_chunks_def chunks_def onmessage_audio play_chunk_def
      example_dec_def connected_session_def initial_def at_time_def set_add_def Let_def upt_rec)

theorem gapless_scheduling_witness:
  "playable example_dec prompt_chunks \<and> in_time example_dec connected_session prompt_chunks \<and>
   map start_at (scheduled_by example_dec connected_session prompt_chunks) = [0, 5, 6] \<and>
   start_at (scheduled_by example_dec connected_session prompt_chunks ! 2) =
     start_at (scheduled_by example_dec connected_session prompt_chunks ! 0) +
       sum_list (map duration (take 2 (scheduled_by example_dec connected_session prompt_chunks)))"
proof -
  have "\<forall>k < length prompt_chunks.
      start_at (scheduled_by example_dec connected_session prompt_chunks ! k) =
        start_at (scheduled_by example_dec connected_session prompt_chunks ! 0) +
          sum_list (map duration (take k (scheduled_by example_dec connected_session prompt_chunks)))"
    using gapless_scheduling [OF playable_examples(1), of connected_session]
      in_time_prompt_chunks by blast
  moreover have "2 < length prompt_chunks" by (simp add: prompt_chunks_def)
  ultimately have "start_at (scheduled_by example_dec connected_session prompt_chunks ! 2) =
     start_at (scheduled_by example_dec connected_session prompt_chunks ! 0) +
       sum_list (map duration (take 2 (scheduled_by example_dec connected_session prompt_chunks)))"
    by blast
  then show ?thesis
    using playable_examples(1) in_time_prompt_chunks
    by (simp add: scheduled_by_prompt_chunks)
qed

text \<open>
  The claim as stated fails without the condition on the arrivals: a second chunk that
  arrives at clock time 5, after the one-second first chunk has ended, starts at 5 and not
  at the first start plus the first duration.
\<close>

theorem underrun_counterexample:
  "playable example_dec late_chunks \<and>
   start_at (scheduled_by example_dec connected_session late_chunks ! 1) = 5 \<and>
   start_at (scheduled_by example_dec connected_session late_chunks ! 0) +
     sum_list (map duration (take 1 (scheduled_by example_dec connected_session late_chunks))) = 1"
  using playable_examples(2) by (simp add: scheduled_by_late_chunks)

end
